theory Spec2Isabelle
  imports Main "HOL-Library.Sublist"
begin

section \<open>Request authorization middleware (src/middleware.ts)\<close>

text \<open>
  The middleware is one function from a request to a response. It reads two route lists
  declared in the same file, and two things that it imports from the module
  \<^verbatim>\<open>@/lib/auth\<close>: the object \<^verbatim>\<open>ROUTE_PERMISSIONS\<close> and the function
  \<^verbatim>\<open>TokenManager.verifyToken\<close>. That module is not modelled, and both are parameters of the
  functions below: what is proved holds for every permission table and every verifier.
\<close>

subsection \<open>JavaScript string operations\<close>

text \<open>
  \<^verbatim>\<open>s.startsWith(t)\<close> is \<open>prefix t s\<close> and \<^verbatim>\<open>s.endsWith(t)\<close> is \<open>suffix t s\<close>.
  \<^verbatim>\<open>s.includes(t)\<close> holds when \<open>t\<close> starts at some position of \<open>s\<close>.
\<close>

fun includes_str :: "string \<Rightarrow> string \<Rightarrow> bool" where
  "includes_str [] t = (t = [])"
| "includes_str (c # cs) t = (prefix t (c # cs) \<or> includes_str cs t)"

subsection \<open>Data\<close>

text \<open>
  What the middleware reads from a \<^verbatim>\<open>NextRequest\<close>: \<^verbatim>\<open>request.nextUrl.pathname\<close>, the origin
  of \<^verbatim>\<open>request.url\<close> (the base of every URL it builds), the result of
  \<^verbatim>\<open>request.headers.get('authorization')\<close> and the value of the cookie \<^verbatim>\<open>auth_token\<close>
  (\<open>None\<close> is JavaScript's \<^verbatim>\<open>null\<close> or \<^verbatim>\<open>undefined\<close>).
\<close>

record request =
  pathname :: string
  origin :: string
  authorization :: "string option"
  auth_token :: "string option"

text \<open>The fields of a verified token's payload that the middleware uses.\<close>

record payload =
  userId :: string
  role :: string
  email :: string
  permissions :: "string list"

text \<open>A URL built by \<^verbatim>\<open>new URL(path, request.url)\<close>, with its search parameters.\<close>

record url =
  url_origin :: string
  url_pathname :: string
  url_searchParams :: "(string \<times> string) list"

text \<open>
  The three kinds of \<^verbatim>\<open>NextResponse\<close> the middleware returns: \<^verbatim>\<open>next()\<close> with the headers
  set on it, \<^verbatim>\<open>json(body, {status})\<close> with the body's fields, and \<^verbatim>\<open>redirect(url)\<close>.
\<close>

datatype response =
    Next "(string \<times> string) list"
  | Json "(string \<times> string) list" nat
  | Redirect url

text \<open>
  \<^verbatim>\<open>ROUTE_PERMISSIONS\<close> is an object from route patterns to arrays of permissions. It is
  modelled by its entries in the order of \<^verbatim>\<open>Object.entries\<close>, which for keys that are not
  array indices is the order of declaration. The keys of an object are distinct, and the
  theorems that need it assume so. \<^verbatim>\<open>verifyToken\<close> returns a payload or \<^verbatim>\<open>null\<close>.
\<close>

type_synonym route_permissions = "(string \<times> string list) list"
type_synonym verifier = "string \<Rightarrow> payload option"

subsection \<open>Route lists\<close>

definition PUBLIC_ROUTES :: "string list" where
  "PUBLIC_ROUTES =
    [''/'', ''/help'', ''/api/auth/login'', ''/api/auth/register'', ''/api/auth/refresh'',
     ''/workers/register'', ''/_next'', ''/favicon.ico'']"

definition AUTH_ONLY_ROUTES :: "string list" where
  "AUTH_ONLY_ROUTES = [''/api/auth/verify'']"

subsection \<open>The permission resolver and the dashboard table\<close>

text \<open>
  \<^verbatim>\<open>getRoutePermissions\<close> (lines 135 to 166). The test \<^verbatim>\<open>if (ROUTE_PERMISSIONS[pathname])\<close>
  succeeds exactly when the path is a key: the values are arrays, and every array is
  truthy, the empty one too. The loop over the entries returns at the first key that the
  path starts with. \<^verbatim>\<open>getDashboardUrl\<close> (lines 171 to 182) is the \<^verbatim>\<open>switch\<close> on the role.
\<close>

definition getRoutePermissions :: "route_permissions \<Rightarrow> string \<Rightarrow> string list" where
  "getRoutePermissions rp p =
    (case map_of rp p of
       Some perms \<Rightarrow> perms
     | None \<Rightarrow>
        (case find (\<lambda>(routePattern, perms). prefix routePattern p) rp of
           Some (routePattern, perms) \<Rightarrow> perms
         | None \<Rightarrow>
            if prefix ''/api/workers/'' p then
              (if includes_str p ''/documents''
               then [''read:own_documents'', ''read:patient_documents'']
               else [''read:own_profile'', ''read:patient_profiles''])
            else if prefix ''/api/doctors/'' p then [''read:patient_profiles'']
            else if prefix ''/api/admin/'' p then [''read:all_users'']
            else []))"

definition getDashboardUrl :: "string \<Rightarrow> string" where
  "getDashboardUrl r =
    (if r = ''worker'' then ''/workers/dashboard''
     else if r = ''doctor'' then ''/doctors''
     else if r = ''admin'' then ''/admin''
     else ''/'')"

subsection \<open>The middleware\<close>

text \<open>
  The first test of the middleware (lines 25 to 33), for static files and framework
  internals, and the tests \<^verbatim>\<open>isPublicRoute\<close> (lines 38 to 40) and \<^verbatim>\<open>isAuthOnlyRoute\<close>
  (lines 88 to 90).
\<close>

definition skipStatic :: "string \<Rightarrow> bool" where
  "skipStatic p \<longleftrightarrow>
     includes_str p ''_next'' \<or> includes_str p ''favicon'' \<or>
     suffix ''.js'' p \<or> suffix ''.css'' p \<or> suffix ''.png'' p \<or>
     suffix ''.jpg'' p \<or> suffix ''.svg'' p"

definition isPublicRoute :: "string \<Rightarrow> bool" where
  "isPublicRoute p \<longleftrightarrow> list_ex (\<lambda>route. p = route \<or> prefix route p) PUBLIC_ROUTES"

definition isAuthOnlyRoute :: "string \<Rightarrow> bool" where
  "isAuthOnlyRoute p \<longleftrightarrow> list_ex (\<lambda>route. p = route \<or> prefix route p) AUTH_ONLY_ROUTES"

text \<open>
  The token (lines 47 to 55): the rest of an \<^verbatim>\<open>authorization\<close> header that starts with
  \<^verbatim>\<open>Bearer \<close>, and the cookie otherwise, where \<^verbatim>\<open>value || null\<close> turns an empty value into
  \<^verbatim>\<open>null\<close>.
\<close>

definition getToken :: "request \<Rightarrow> string option" where
  "getToken req =
    (case authorization req of
       Some authHeader \<Rightarrow>
         if prefix ''Bearer '' authHeader then Some (drop 7 authHeader)
         else (case auth_token req of
                 Some v \<Rightarrow> if v = [] then None else Some v
               | None \<Rightarrow> None)
     | None \<Rightarrow>
         (case auth_token req of
            Some v \<Rightarrow> if v = [] then None else Some v
          | None \<Rightarrow> None))"

definition loginUrl :: "request \<Rightarrow> url" where
  "loginUrl req =
    \<lparr>url_origin = origin req, url_pathname = ''/auth/login'',
     url_searchParams = [(''redirect'', pathname req)]\<rparr>"

definition userHeaders :: "payload \<Rightarrow> (string \<times> string) list" where
  "userHeaders pl =
    [(''x-user-id'', userId pl), (''x-user-role'', role pl), (''x-user-email'', email pl)]"

text \<open>
  The answer when \<^verbatim>\<open>!token\<close> holds, that is when the token is \<^verbatim>\<open>null\<close> or the empty string
  (lines 59 to 69).
\<close>

definition missingToken :: "request \<Rightarrow> response" where
  "missingToken req =
    (if prefix ''/api/'' (pathname req)
     then Json [(''error'', ''Authentication required'')] 401
     else Redirect (loginUrl req))"

text \<open>The answer when \<^verbatim>\<open>verifyToken\<close> returns \<^verbatim>\<open>null\<close> (lines 75 to 84).\<close>

definition invalidToken :: "request \<Rightarrow> response" where
  "invalidToken req =
    (if prefix ''/api/'' (pathname req)
     then Json [(''error'', ''Invalid or expired token'')] 401
     else Redirect (loginUrl req))"

text \<open>
  The role check on the permissions that the resolver returned, and the final answer
  (lines 104 to 129).
\<close>

definition checkPermissions :: "request \<Rightarrow> payload \<Rightarrow> string list \<Rightarrow> response" where
  "checkPermissions req pl requiredPermissions =
    (if requiredPermissions \<noteq> [] \<and>
        \<not> list_ex (\<lambda>permission. permission \<in> set (permissions pl)) requiredPermissions
     then
       (if prefix ''/api/'' (pathname req)
        then Json [(''error'', ''Insufficient permissions'')] 403
        else Redirect \<lparr>url_origin = origin req,
                       url_pathname = getDashboardUrl (role pl),
                       url_searchParams = []\<rparr>)
     else Next (userHeaders pl))"

text \<open>The middleware from the verification of a token on (lines 73 to 129).\<close>

definition verifyAndAuthorize ::
  "route_permissions \<Rightarrow> verifier \<Rightarrow> request \<Rightarrow> string \<Rightarrow> response" where
  "verifyAndAuthorize rp verifyToken req token =
    (case verifyToken token of
       None \<Rightarrow> invalidToken req
     | Some pl \<Rightarrow>
         if isAuthOnlyRoute (pathname req) then Next (userHeaders pl)
         else checkPermissions req pl (getRoutePermissions rp (pathname req)))"

text \<open>
  The middleware after its two early returns for static and public paths (lines 47 to
  129), and the whole of it (lines 21 to 130).
\<close>

definition protectedRoute :: "route_permissions \<Rightarrow> verifier \<Rightarrow> request \<Rightarrow> response" where
  "protectedRoute rp verifyToken req =
    (case getToken req of
       None \<Rightarrow> missingToken req
     | Some token \<Rightarrow>
         if token = [] then missingToken req
         else verifyAndAuthorize rp verifyToken req token)"

definition middleware :: "route_permissions \<Rightarrow> verifier \<Rightarrow> request \<Rightarrow> response" where
  "middleware rp verifyToken req =
    (if skipStatic (pathname req) then Next []
     else if isPublicRoute (pathname req) then Next []
     else protectedRoute rp verifyToken req)"

subsection \<open>Header values\<close>



subsection \<open>The tables as arrays in a store\<close>

text \<open>
  The route lists and the values of \<^verbatim>\<open>ROUTE_PERMISSIONS\<close> are JavaScript arrays, which a
  program can change in place. To state that an evaluation changes none of them, this
  second model keeps every array in a store, at an address. The constants
  \<^verbatim>\<open>PUBLIC_ROUTES\<close> and \<^verbatim>\<open>AUTH_ONLY_ROUTES\<close> are addresses, \<^verbatim>\<open>ROUTE_PERMISSIONS\<close> maps each key
  to the address of its array, the middleware reads arrays through the store, and the
  spread \<^verbatim>\<open>[...a]\<close> and an array literal allocate a new array. The file has no assignment to
  an element or a property, so allocation is the only operation on the store.
\<close>

type_synonym addr = nat

record store =
  arrays :: "addr \<Rightarrow> string list option"
  nextAddr :: addr

definition alloc :: "string list \<Rightarrow> store \<Rightarrow> addr \<times> store" where
  "alloc xs s =
    (nextAddr s, s\<lparr>arrays := (arrays s)(nextAddr s \<mapsto> xs), nextAddr := Suc (nextAddr s)\<rparr>)"

definition elements :: "store \<Rightarrow> addr \<Rightarrow> string list" where
  "elements s a = (case arrays s a of Some xs \<Rightarrow> xs | None \<Rightarrow> [])"

record tables =
  PUBLIC_ROUTES_at :: addr
  AUTH_ONLY_ROUTES_at :: addr
  ROUTE_PERMISSIONS_at :: "(string \<times> addr) list"

definition getRoutePermissions_st :: "tables \<Rightarrow> string \<Rightarrow> store \<Rightarrow> addr \<times> store" where
  "getRoutePermissions_st T p s =
    (case map_of (ROUTE_PERMISSIONS_at T) p of
       Some a \<Rightarrow> alloc (elements s a) s
     | None \<Rightarrow>
        (case find (\<lambda>(routePattern, a). prefix routePattern p) (ROUTE_PERMISSIONS_at T) of
           Some (routePattern, a) \<Rightarrow> alloc (elements s a) s
         | None \<Rightarrow>
            if prefix ''/api/workers/'' p then
              (if includes_str p ''/documents''
               then alloc [''read:own_documents'', ''read:patient_documents''] s
               else alloc [''read:own_profile'', ''read:patient_profiles''] s)
            else if prefix ''/api/doctors/'' p then alloc [''read:patient_profiles''] s
            else if prefix ''/api/admin/'' p then alloc [''read:all_users''] s
            else alloc [] s))"

definition verifyAndAuthorize_st ::
  "tables \<Rightarrow> verifier \<Rightarrow> request \<Rightarrow> string \<Rightarrow> store \<Rightarrow> response \<times> store" where
  "verifyAndAuthorize_st T verifyToken req token s =
    (case verifyToken token of
       None \<Rightarrow> (invalidToken req, s)
     | Some pl \<Rightarrow>
         if list_ex (\<lambda>route. pathname req = route \<or> prefix route (pathname req))
              (elements s (AUTH_ONLY_ROUTES_at T))
         then (Next (userHeaders pl), s)
         else (case getRoutePermissions_st T (pathname req) s of
                 (requiredPermissions, s') \<Rightarrow>
                   (checkPermissions req pl (elements s' requiredPermissions), s')))"

definition protectedRoute_st ::
  "tables \<Rightarrow> verifier \<Rightarrow> request \<Rightarrow> store \<Rightarrow> response \<times> store" where
  "protectedRoute_st T verifyToken req s =
    (case getToken req of
       None \<Rightarrow> (missingToken req, s)
     | Some token \<Rightarrow>
         if token = [] then (missingToken req, s)
         else verifyAndAuthorize_st T verifyToken req token s)"

definition middleware_st ::
  "tables \<Rightarrow> verifier \<Rightarrow> request \<Rightarrow> store \<Rightarrow> response \<times> store" where
  "middleware_st T verifyToken req s =
    (if skipStatic (pathname req) then (Next [], s)
     else if list_ex (\<lambda>route. pathname req = route \<or> prefix route (pathname req))
               (elements s (PUBLIC_ROUTES_at T))
     then (Next [], s)
     else protectedRoute_st T verifyToken req s)"

text \<open>The permission table that the first model takes, read from the store.\<close>

definition tableView :: "tables \<Rightarrow> store \<Rightarrow> route_permissions" where
  "tableView T s = map (\<lambda>(k, a). (k, elements s a)) (ROUTE_PERMISSIONS_at T)"

text \<open>
  The store after the module is loaded: every array of the tables is allocated and the two
  route lists hold what the file declares.
\<close>

definition allocated :: "tables \<Rightarrow> store \<Rightarrow> bool" where
  "allocated T s \<longleftrightarrow>
     PUBLIC_ROUTES_at T < nextAddr s \<and> AUTH_ONLY_ROUTES_at T < nextAddr s \<and>
     list_all (\<lambda>(k, a). a < nextAddr s) (ROUTE_PERMISSIONS_at T)"

definition loaded :: "tables \<Rightarrow> store \<Rightarrow> bool" where
  "loaded T s \<longleftrightarrow>
     allocated T s \<and>
     elements s (PUBLIC_ROUTES_at T) = PUBLIC_ROUTES \<and>
     elements s (AUTH_ONLY_ROUTES_at T) = AUTH_ONLY_ROUTES"

text \<open>A later store extends an earlier one when every array of the earlier is unchanged.\<close>

definition extends :: "store \<Rightarrow> store \<Rightarrow> bool" where
  "extends s s' \<longleftrightarrow>
     nextAddr s \<le> nextAddr s' \<and> (\<forall>a < nextAddr s. arrays s' a = arrays s a)"

text \<open>An example: a permission table with one entry, loaded at the addresses 0 to 2.\<close>

definition example_tables :: tables where
  "example_tables =
    \<lparr>PUBLIC_ROUTES_at = 0, AUTH_ONLY_ROUTES_at = 1, ROUTE_PERMISSIONS_at = [(''/admin'', 2)]\<rparr>"

definition example_store :: store where
  "example_store =
    \<lparr>arrays = [0 \<mapsto> PUBLIC_ROUTES, 1 \<mapsto> AUTH_ONLY_ROUTES, 2 \<mapsto> [''read:all_users'']],
     nextAddr = 3\<rparr>"

section \<open>Properties\<close>

subsection \<open>Helper facts\<close>

text \<open>\<^verbatim>\<open>s.includes(t)\<close> says that \<open>t\<close> is a substring of \<open>s\<close>.\<close>

lemma includes_iff: "includes_str s t \<longleftrightarrow> (\<exists>u v. s = u @ t @ v)"
proof (induction s)
  case Nil
  then show ?case by auto
next
  case (Cons c cs)
  have "(\<exists>u v. c # cs = u @ t @ v) \<longleftrightarrow> prefix t (c # cs) \<or> (\<exists>u v. cs = u @ t @ v)"
    (is "?L \<longleftrightarrow> ?R")
  proof
    assume ?L
    then obtain u v where uv: "c # cs = u @ t @ v" by blast
    show ?R
    proof (cases u)
      case Nil
      with uv show ?thesis by (auto simp: prefix_def)
    next
      case (Cons a u')
      with uv have "cs = u' @ t @ v" by simp
      then show ?thesis by blast
    qed
  next
    assume ?R
    then show ?L
    proof
      assume "prefix t (c # cs)"
      then obtain v where "c # cs = [] @ t @ v" by (auto simp: prefix_def)
      then show ?L by blast
    next
      assume "\<exists>u v. cs = u @ t @ v"
      then obtain u v where "c # cs = (c # u) @ t @ v" by auto
      then show ?L by blast
    qed
  qed
  with Cons.IH show ?case by simp
qed

lemma slash_is_public: "prefix ''/'' p \<Longrightarrow> isPublicRoute p"
  by (simp add: isPublicRoute_def PUBLIC_ROUTES_def)

subsection \<open>C1: every path that begins with a slash is passed through\<close>

text \<open>
  C1. For every request whose pathname begins with \<^verbatim>\<open>/\<close>, whatever its headers and cookies,
  whatever the permission table and whatever the verifier answers, the middleware returns
  \<^verbatim>\<open>NextResponse.next()\<close> with no identity header: \<^verbatim>\<open>/\<close> is an entry of \<open>PUBLIC_ROUTES\<close> and
  the match is by string prefix, so the path is a public route.
\<close>

theorem slash_path_passes_through:
  assumes "prefix ''/'' (pathname req)"
  shows "isPublicRoute (pathname req) \<and> middleware rp verifyToken req = Next []"
  using slash_is_public [OF assms] by (simp add: middleware_def)

theorem slash_path_passes_through_witness:
  "prefix ''/'' (pathname \<lparr>pathname = ''/api/admin/users'', origin = ''https://h'',
      authorization = Some ''Bearer forged'', auth_token = None\<rparr>) \<and>
   middleware [] (\<lambda>t. None)
     \<lparr>pathname = ''/api/admin/users'', origin = ''https://h'',
      authorization = Some ''Bearer forged'', auth_token = None\<rparr> = Next []"
  using slash_path_passes_through
    [of "\<lparr>pathname = ''/api/admin/users'', origin = ''https://h'',
          authorization = Some ''Bearer forged'', auth_token = None\<rparr>" "[]" "\<lambda>t. None"]
  by simp

subsection \<open>C2: an API path without a credential\<close>

text \<open>
  C2. The claim asks for status 401 with the body \<^verbatim>\<open>{"error":"Authentication required"}\<close>
  on every path beginning with \<^verbatim>\<open>/api/\<close> when no credential is present. The request for
  \<^verbatim>\<open>/api/workers/42\<close> with no \<^verbatim>\<open>authorization\<close> header and no \<^verbatim>\<open>auth_token\<close> cookie is passed
  through instead, for every permission table and every verifier. The path is no static
  file, and the only entry of \<open>PUBLIC_ROUTES\<close> that matches it is \<^verbatim>\<open>/\<close>, which is a prefix of
  every pathname. The code after the two early returns, which this request does not
  reach, answers with the status and the body of the claim.
\<close>

theorem api_without_credential_passes_through:
  "middleware rp verifyToken
     \<lparr>pathname = ''/api/workers/42'', origin = ''https://h'',
      authorization = None, auth_token = None\<rparr> = Next [] \<and>
   \<not> skipStatic ''/api/workers/42'' \<and>
   filter (\<lambda>route. ''/api/workers/42'' = route \<or> prefix route ''/api/workers/42'') PUBLIC_ROUTES
     = [''/''] \<and>
   protectedRoute rp verifyToken
     \<lparr>pathname = ''/api/workers/42'', origin = ''https://h'',
      authorization = None, auth_token = None\<rparr>
     = Json [(''error'', ''Authentication required'')] 401"
  by (simp add: middleware_def isPublicRoute_def PUBLIC_ROUTES_def skipStatic_def suffix_to_prefix
      protectedRoute_def getToken_def missingToken_def)

subsection \<open>C3: a page path without a valid credential\<close>

text \<open>
  C3. The claim asks for a redirect to \<^verbatim>\<open>/auth/login\<close>, with the search parameter
  \<^verbatim>\<open>redirect\<close> set to the requested pathname, on every path not beginning with \<^verbatim>\<open>/api/\<close>
  when the credential is absent or fails verification. The request for
  \<^verbatim>\<open>/doctors/patients\<close> with no \<^verbatim>\<open>authorization\<close> header and no \<^verbatim>\<open>auth_token\<close> cookie is passed
  through instead, for every permission table and every verifier. The path is no static
  file, and the only entry of \<open>PUBLIC_ROUTES\<close> that matches it is \<^verbatim>\<open>/\<close>. The code after the
  two early returns, which this request does not reach, answers with the redirect of the
  claim.
\<close>

theorem page_without_credential_passes_through:
  "middleware rp verifyToken
     \<lparr>pathname = ''/doctors/patients'', origin = ''https://h'',
      authorization = None, auth_token = None\<rparr> = Next [] \<and>
   \<not> skipStatic ''/doctors/patients'' \<and>
   filter (\<lambda>route. ''/doctors/patients'' = route \<or> prefix route ''/doctors/patients'')
     PUBLIC_ROUTES = [''/''] \<and>
   protectedRoute rp verifyToken
     \<lparr>pathname = ''/doctors/patients'', origin = ''https://h'',
      authorization = None, auth_token = None\<rparr>
     = Redirect \<lparr>url_origin = ''https://h'', url_pathname = ''/auth/login'',
                 url_searchParams = [(''redirect'', ''/doctors/patients'')]\<rparr>"
  by (simp add: middleware_def isPublicRoute_def PUBLIC_ROUTES_def skipStatic_def suffix_to_prefix
      protectedRoute_def getToken_def missingToken_def loginUrl_def)

subsection \<open>C4: exempt paths are allowed whatever the credential\<close>

text \<open>
  C4. A path is exempt when it passes the test for static files and framework internals
  (it contains \<^verbatim>\<open>_next\<close> or \<^verbatim>\<open>favicon\<close>, or ends in one of the five asset extensions), or
  when it is equal to an entry of \<open>PUBLIC_ROUTES\<close> or has one as a string prefix, which
  includes the over-matches of a raw prefix test such as \<^verbatim>\<open>/workers/registerX\<close> against
  \<^verbatim>\<open>/workers/register\<close>. For every exempt path the middleware returns
  \<^verbatim>\<open>NextResponse.next()\<close>, whatever the header, the cookie, the permission table and the
  verifier.
\<close>

theorem exempt_path_allowed:
  assumes "skipStatic (pathname req) \<or>
           (\<exists>route \<in> set PUBLIC_ROUTES. pathname req = route \<or> prefix route (pathname req))"
  shows "middleware rp verifyToken (req\<lparr>authorization := hdr, auth_token := cookie\<rparr>) = Next []"
proof -
  from assms have "skipStatic (pathname req) \<or> isPublicRoute (pathname req)"
    by (auto simp: isPublicRoute_def list_ex_iff)
  then show ?thesis by (auto simp: middleware_def)
qed

theorem exempt_path_allowed_witness:
  "\<not> skipStatic ''/workers/registerX'' \<and>
   ''/workers/register'' \<in> set PUBLIC_ROUTES \<and>
   prefix ''/workers/register'' ''/workers/registerX'' \<and>
   middleware [] (\<lambda>t. None)
     \<lparr>pathname = ''/workers/registerX'', origin = ''https://h'',
      authorization = Some ''Bearer expired'', auth_token = Some ''stale''\<rparr> = Next []"
proof -
  have r: "''/workers/register'' \<in> set PUBLIC_ROUTES"
    by (simp add: PUBLIC_ROUTES_def)
  have s: "\<not> skipStatic ''/workers/registerX''"
    by (simp add: skipStatic_def suffix_to_prefix)
  have "middleware [] (\<lambda>t. None)
      (\<lparr>pathname = ''/workers/registerX'', origin = ''https://h'',
        authorization = None, auth_token = None\<rparr>
        \<lparr>authorization := Some ''Bearer expired'', auth_token := Some ''stale''\<rparr>) = Next []"
  proof (rule exempt_path_allowed)
    have "prefix ''/workers/register'' ''/workers/registerX''" by simp
    with r show "skipStatic (pathname \<lparr>pathname = ''/workers/registerX'', origin = ''https://h'',
        authorization = None, auth_token = None\<rparr>) \<or>
      (\<exists>route \<in> set PUBLIC_ROUTES.
         pathname \<lparr>pathname = ''/workers/registerX'', origin = ''https://h'',
           authorization = None, auth_token = None\<rparr> = route \<or>
         prefix route (pathname \<lparr>pathname = ''/workers/registerX'', origin = ''https://h'',
           authorization = None, auth_token = None\<rparr>))"
      by (simp only: request.simps) blast
  qed
  with r s show ?thesis by simp
qed

subsection \<open>C5: an exact entry of the permission table wins\<close>

text \<open>
  C5. When the path is a key of the permission table, the resolver returns the permissions
  of that entry, also when an earlier entry is a prefix of the path or when one of the
  hard-coded rules for \<^verbatim>\<open>/api/workers/\<close>, \<^verbatim>\<open>/api/doctors/\<close> and \<^verbatim>\<open>/api/admin/\<close> applies to it.
\<close>

theorem exact_match_takes_precedence:
  assumes "distinct (map fst rp)" and "(p, perms) \<in> set rp"
  shows "getRoutePermissions rp p = perms"
  using assms by (simp add: getRoutePermissions_def)

theorem exact_match_takes_precedence_witness:
  "getRoutePermissions
     [(''/api'', [''a'']), (''/api/workers/'', [''b'']), (''/api/workers/42'', [''c''])]
     ''/api/workers/42'' = [''c'']"
  by (rule exact_match_takes_precedence) simp_all

subsection \<open>C6: among prefix entries the first declared wins\<close>

lemma find_first_prefix:
  assumes "\<forall>(k, v) \<in> set before. \<not> prefix k p" and "prefix key p"
  shows "find (\<lambda>(routePattern, perms). prefix routePattern p) (before @ (key, perms) # after)
         = Some (key, perms)"
  using assms by (induction before) auto

text \<open>
  C6. When the path is not a key of the permission table, the resolver returns the
  permissions of the first entry, in the order of declaration, whose key is a string
  prefix of the path, whatever comes after that entry: a later entry that is a longer
  prefix of the path does not change the result.
\<close>

theorem first_prefix_entry_wins:
  assumes "map_of rp p = None"
    and "rp = before @ (key, perms) # after"
    and "\<forall>(k, v) \<in> set before. \<not> prefix k p"
    and "prefix key p"
  shows "getRoutePermissions rp p = perms"
proof -
  have "find (\<lambda>(routePattern, perms). prefix routePattern p) rp = Some (key, perms)"
    unfolding assms(2) by (rule find_first_prefix [OF assms(3,4)])
  with assms(1) show ?thesis
    by (simp add: getRoutePermissions_def)
qed

theorem first_prefix_entry_wins_witness:
  "getRoutePermissions
     [(''/admin'', [''x'']), (''/api'', [''first'']), (''/api/admin'', [''longer''])]
     ''/api/admin/stats'' = [''first'']"
proof -
  have "getRoutePermissions
          ([(''/admin'', [''x''])] @ (''/api'', [''first'']) # [(''/api/admin'', [''longer''])])
          ''/api/admin/stats'' = [''first'']"
    by (rule first_prefix_entry_wins [OF _ refl]) simp_all
  then show ?thesis by simp
qed

subsection \<open>C7: the hard-coded rule for worker routes\<close>

lemma no_prefix_entry:
  assumes "\<forall>(k, v) \<in> set rp. \<not> prefix k p"
  shows "map_of rp p = None"
    and "find (\<lambda>(routePattern, perms). prefix routePattern p) rp = None"
proof -
  from assms have "p \<notin> fst ` set rp" by force
  then show "map_of rp p = None" by (simp add: map_of_eq_None_iff)
  from assms show "find (\<lambda>(routePattern, perms). prefix routePattern p) rp = None"
    by (auto simp: find_None_iff)
qed

text \<open>
  C7. For a path that starts with \<^verbatim>\<open>/api/workers/\<close> and that no key of the permission table
  equals or is a prefix of, the resolver returns the two permissions
  \<^verbatim>\<open>read:own_documents\<close> and \<^verbatim>\<open>read:patient_documents\<close> when the path contains
  \<^verbatim>\<open>/documents\<close>, and \<^verbatim>\<open>read:own_profile\<close> and \<^verbatim>\<open>read:patient_profiles\<close> when it does not.
  The path \<^verbatim>\<open>/api/workers/42/documents\<close> is of the first kind.
\<close>

theorem worker_route_permissions:
  assumes "prefix ''/api/workers/'' p" and "\<forall>(k, v) \<in> set rp. \<not> prefix k p"
  shows "getRoutePermissions rp p =
          (if \<exists>u v. p = u @ ''/documents'' @ v
           then [''read:own_documents'', ''read:patient_documents'']
           else [''read:own_profile'', ''read:patient_profiles''])"
  using assms(1) no_prefix_entry [OF assms(2)]
  by (simp add: getRoutePermissions_def includes_iff del: append_eq_Cons_conv Cons_eq_append_conv)

theorem worker_route_permissions_witness:
  "getRoutePermissions [(''/admin'', [''read:all_users''])] ''/api/workers/42/documents''
     = [''read:own_documents'', ''read:patient_documents''] \<and>
   getRoutePermissions [(''/admin'', [''read:all_users''])] ''/api/workers/42''
     = [''read:own_profile'', ''read:patient_profiles'']"
proof -
  have d: "\<exists>u v. ''/api/workers/42/documents'' = u @ ''/documents'' @ v"
    unfolding includes_iff [symmetric] by simp
  have n: "\<not> (\<exists>u v. ''/api/workers/42'' = u @ ''/documents'' @ v)"
    unfolding includes_iff [symmetric] by simp
  have "getRoutePermissions [(''/admin'', [''read:all_users''])] ''/api/workers/42/documents''
     = [''read:own_documents'', ''read:patient_documents'']"
    using worker_route_permissions
      [of "''/api/workers/42/documents''" "[(''/admin'', [''read:all_users''])]"] d
    by simp
  moreover
  have "getRoutePermissions [(''/admin'', [''read:all_users''])] ''/api/workers/42''
     = [''read:own_profile'', ''read:patient_profiles'']"
    using worker_route_permissions
      [of "''/api/workers/42''" "[(''/admin'', [''read:all_users''])]"] n
    by simp
  ultimately show ?thesis by simp
qed

subsection \<open>C8: a valid identity without the required permission\<close>

text \<open>
  C8. The claim asks for status 403 with the body \<^verbatim>\<open>{"error":"Insufficient permissions"}\<close>
  on an API path when the identity is valid and has none of the required permissions. The
  request for \<^verbatim>\<open>/api/admin/stats\<close> with the header \<^verbatim>\<open>Bearer tok\<close> is passed through instead,
  for every permission table and every verifier. The path is no static file, and the only
  entry of \<open>PUBLIC_ROUTES\<close> that matches it is \<^verbatim>\<open>/\<close>. With no entry of the permission table
  for the path, the resolver requires \<^verbatim>\<open>read:all_users\<close>; for a verifier that takes the
  token for a doctor who may only read patient profiles, the code after the two early
  returns, which this request does not reach, answers with the status and the body of the
  claim.
\<close>

theorem insufficient_permissions_passes_through:
  "middleware rp verifyToken
     \<lparr>pathname = ''/api/admin/stats'', origin = ''https://h'',
      authorization = Some ''Bearer tok'', auth_token = None\<rparr> = Next [] \<and>
   \<not> skipStatic ''/api/admin/stats'' \<and>
   filter (\<lambda>route. ''/api/admin/stats'' = route \<or> prefix route ''/api/admin/stats'')
     PUBLIC_ROUTES = [''/''] \<and>
   getRoutePermissions [] ''/api/admin/stats'' = [''read:all_users''] \<and>
   protectedRoute []
     (\<lambda>t. if t = ''tok''
          then Some \<lparr>userId = ''u1'', role = ''doctor'', email = ''d@h'',
                     permissions = [''read:patient_profiles'']\<rparr>
          else None)
     \<lparr>pathname = ''/api/admin/stats'', origin = ''https://h'',
      authorization = Some ''Bearer tok'', auth_token = None\<rparr>
     = Json [(''error'', ''Insufficient permissions'')] 403"
  by (simp add: middleware_def isPublicRoute_def PUBLIC_ROUTES_def skipStatic_def suffix_to_prefix
      protectedRoute_def getToken_def verifyAndAuthorize_def isAuthOnlyRoute_def
      AUTH_ONLY_ROUTES_def checkPermissions_def getRoutePermissions_def)

subsection \<open>C9: the token of a bearer header\<close>




subsection \<open>C10: evaluations are repeatable and leave the tables alone\<close>

lemma extends_refl: "extends s s"
  by (simp add: extends_def)

lemma alloc_result:
  assumes "alloc xs s = (a, s')"
  shows "a = nextAddr s" and "elements s' a = xs" and "extends s s'"
  using assms by (auto simp: alloc_def elements_def extends_def)

lemma extends_elements: "extends s s' \<Longrightarrow> a < nextAddr s \<Longrightarrow> elements s' a = elements s a"
  by (simp add: extends_def elements_def)

lemma extends_tableView:
  assumes "extends s s'" and "allocated T s"
  shows "tableView T s' = tableView T s"
  using assms
  by (auto simp: tableView_def allocated_def list_all_iff extends_elements)

lemma extends_loaded:
  assumes "extends s s'" and "loaded T s"
  shows "loaded T s'"
  using assms
  by (auto simp: loaded_def allocated_def list_all_iff extends_elements extends_def)

lemma find_view:
  "find (\<lambda>(routePattern, perms). prefix routePattern p) (map (\<lambda>(k, a). (k, f a)) xs)
   = map_option (\<lambda>(k, a). (k, f a)) (find (\<lambda>(routePattern, a). prefix routePattern p) xs)"
  by (induction xs) auto

text \<open>The resolver on the store allocates a copy of what the resolver of the first model returns.\<close>

lemma getRoutePermissions_st_alloc:
  "getRoutePermissions_st T p s = alloc (getRoutePermissions (tableView T s) p) s"
  by (simp add: getRoutePermissions_st_def getRoutePermissions_def tableView_def
      map_of_map find_view split: option.splits prod.splits)

lemma verifyAndAuthorize_st_result:
  assumes "loaded T s"
  shows "fst (verifyAndAuthorize_st T vt req token s)
         = verifyAndAuthorize (tableView T s) vt req token"
    and "extends s (snd (verifyAndAuthorize_st T vt req token s))"
  using assms
  by (auto simp: verifyAndAuthorize_st_def verifyAndAuthorize_def loaded_def isAuthOnlyRoute_def
      getRoutePermissions_st_alloc extends_refl alloc_result(2,3)
      split: option.splits prod.splits)

lemma protectedRoute_st_result:
  assumes "loaded T s"
  shows "fst (protectedRoute_st T vt req s) = protectedRoute (tableView T s) vt req"
    and "extends s (snd (protectedRoute_st T vt req s))"
  using verifyAndAuthorize_st_result [OF assms]
  by (auto simp: protectedRoute_st_def protectedRoute_def extends_refl split: option.splits)

text \<open>On a loaded store the two models of the middleware give the same response.\<close>

lemma middleware_st_result:
  assumes "loaded T s"
  shows "fst (middleware_st T vt req s) = middleware (tableView T s) vt req"
    and "extends s (snd (middleware_st T vt req s))"
  using protectedRoute_st_result [OF assms] assms
  by (auto simp: middleware_st_def middleware_def extends_refl loaded_def isPublicRoute_def)

text \<open>
  C10. On a store in which the tables are loaded, let the middleware evaluate a request,
  and evaluate the same request again on the store that the first evaluation leaves, with
  the same verifier. The two responses are equal, and equal to the response that the first
  model computes from the request, the verifier and the contents of the permission table.
  After the first evaluation every array that was allocated before it has the same
  elements, so the tables are still loaded and the permission table reads the same. The
  array that the resolver returns is at an address of none of the tables, holds the
  permissions resolved for the path, and its allocation changes no other array.
\<close>

theorem middleware_deterministic_readonly:
  assumes "loaded T s"
    and "middleware_st T verifyToken req s = (d1, s1)"
    and "middleware_st T verifyToken req s1 = (d2, s2)"
    and "getRoutePermissions_st T p s = (copy, s')"
  shows "d2 = d1 \<and> d1 = middleware (tableView T s) verifyToken req \<and>
         loaded T s1 \<and> tableView T s1 = tableView T s \<and>
         (\<forall>a < nextAddr s. arrays s1 a = arrays s a) \<and>
         copy \<notin> snd ` set (ROUTE_PERMISSIONS_at T) \<and>
         copy \<noteq> PUBLIC_ROUTES_at T \<and> copy \<noteq> AUTH_ONLY_ROUTES_at T \<and>
         elements s' copy = getRoutePermissions (tableView T s) p \<and>
         (\<forall>a < nextAddr s. arrays s' a = arrays s a)"
proof -
  have a: "allocated T s" using assms(1) by (simp add: loaded_def)
  have e1: "extends s s1" and r1: "d1 = middleware (tableView T s) verifyToken req"
    using middleware_st_result [OF assms(1), of verifyToken req] assms(2) by simp_all
  have l1: "loaded T s1" by (rule extends_loaded [OF e1 assms(1)])
  have v1: "tableView T s1 = tableView T s" by (rule extends_tableView [OF e1 a])
  have r2: "d2 = middleware (tableView T s1) verifyToken req"
    using middleware_st_result(1) [OF l1, of verifyToken req] assms(3) by simp
  have c: "alloc (getRoutePermissions (tableView T s) p) s = (copy, s')"
    using assms(4) by (simp add: getRoutePermissions_st_alloc)
  note c1 = alloc_result(1) [OF c] and c2 = alloc_result(2) [OF c] and c3 = alloc_result(3) [OF c]
  have "copy \<notin> snd ` set (ROUTE_PERMISSIONS_at T)"
    using a c1 by (auto simp: allocated_def list_all_iff)
  moreover have "copy \<noteq> PUBLIC_ROUTES_at T" and "copy \<noteq> AUTH_ONLY_ROUTES_at T"
    using a c1 by (auto simp: allocated_def)
  ultimately show ?thesis
    using e1 r1 r2 v1 l1 c2 c3 by (simp add: extends_def)
qed

text \<open>
  The witness takes a pathname with no leading slash, since one with a leading slash does
  not get past the test for public routes: the first evaluation reaches the resolver, which
  allocates the array at address 3, and the second evaluation gives the same response.
\<close>

theorem middleware_deterministic_readonly_witness:
  "loaded example_tables example_store \<and>
   fst (middleware_st example_tables
         (\<lambda>t. Some \<lparr>userId = ''u1'', role = ''doctor'', email = ''d@h'', permissions = []\<rparr>)
         \<lparr>pathname = ''admin/users'', origin = ''https://h'',
          authorization = Some ''Bearer tok'', auth_token = None\<rparr>
         (snd (middleware_st example_tables
           (\<lambda>t. Some \<lparr>userId = ''u1'', role = ''doctor'', email = ''d@h'', permissions = []\<rparr>)
           \<lparr>pathname = ''admin/users'', origin = ''https://h'',
            authorization = Some ''Bearer tok'', auth_token = None\<rparr>
           example_store)))
   = Next [(''x-user-id'', ''u1''), (''x-user-role'', ''doctor''), (''x-user-email'', ''d@h'')] \<and>
   nextAddr (snd (middleware_st example_tables
           (\<lambda>t. Some \<lparr>userId = ''u1'', role = ''doctor'', email = ''d@h'', permissions = []\<rparr>)
           \<lparr>pathname = ''admin/users'', origin = ''https://h'',
            authorization = Some ''Bearer tok'', auth_token = None\<rparr>
           example_store)) = 4 \<and>
   elements (snd (middleware_st example_tables
           (\<lambda>t. Some \<lparr>userId = ''u1'', role = ''doctor'', email = ''d@h'', permissions = []\<rparr>)
           \<lparr>pathname = ''admin/users'', origin = ''https://h'',
            authorization = Some ''Bearer tok'', auth_token = None\<rparr>
           example_store)) 2 = [''read:all_users''] \<and>
   fst (getRoutePermissions_st example_tables ''/admin/users'' example_store) = 3 \<and>
   elements (snd (getRoutePermissions_st example_tables ''/admin/users'' example_store)) 3
     = [''read:all_users'']"
proof -
  let ?v = "\<lambda>t::string. Some \<lparr>userId = ''u1'', role = ''doctor'', email = ''d@h'',
             permissions = []\<rparr>"
  let ?r = "\<lparr>pathname = ''admin/users'', origin = ''https://h'',
             authorization = Some ''Bearer tok'', auth_token = None\<rparr>"
  have l: "loaded example_tables example_store"
    by (simp add: loaded_def allocated_def elements_def example_tables_def example_store_def)
  obtain d1 s1 where r1: "middleware_st example_tables ?v ?r example_store = (d1, s1)"
    by fastforce
  obtain d2 s2 where r2: "middleware_st example_tables ?v ?r s1 = (d2, s2)"
    by fastforce
  obtain c s' where r3: "getRoutePermissions_st example_tables ''/admin/users'' example_store
      = (c, s')"
    by fastforce
  note t = middleware_deterministic_readonly [OF l r1 r2 r3]
  have v: "tableView example_tables example_store = [(''/admin'', [''read:all_users''])]"
    by (simp add: tableView_def elements_def example_tables_def example_store_def)
  have m: "middleware [(''/admin'', [''read:all_users''])] ?v ?r
      = Next [(''x-user-id'', ''u1''), (''x-user-role'', ''doctor''), (''x-user-email'', ''d@h'')]"
    by (simp add: middleware_def skipStatic_def suffix_to_prefix isPublicRoute_def
        PUBLIC_ROUTES_def protectedRoute_def getToken_def verifyAndAuthorize_def
        isAuthOnlyRoute_def AUTH_ONLY_ROUTES_def checkPermissions_def getRoutePermissions_def
        userHeaders_def)
  have g: "getRoutePermissions [(''/admin'', [''read:all_users''])] ''/admin/users''
      = [''read:all_users'']"
    by (simp add: getRoutePermissions_def)
  have n: "nextAddr s1 = 4"
    using r1
    by (auto simp: middleware_st_def skipStatic_def suffix_to_prefix elements_def
        PUBLIC_ROUTES_def protectedRoute_st_def getToken_def verifyAndAuthorize_st_def
        AUTH_ONLY_ROUTES_def getRoutePermissions_st_def alloc_def
        example_tables_def example_store_def)
  have f: "c = 3"
    using r3
    by (auto simp: getRoutePermissions_st_def alloc_def example_tables_def example_store_def)
  have k: "elements example_store 2 = [''read:all_users'']"
    by (simp add: elements_def example_store_def)
  have "arrays s1 2 = arrays example_store 2"
    using t by (simp add: example_store_def)
  then have k1: "elements s1 2 = [''read:all_users'']"
    using k by (simp add: elements_def)
  from t v m have "d2 = Next [(''x-user-id'', ''u1''), (''x-user-role'', ''doctor''),
      (''x-user-email'', ''d@h'')]" by simp
  moreover from t v g f have "elements s' 3 = [''read:all_users'']" by simp
  ultimately show ?thesis
    using l r1 r2 r3 n f k1 by simp
qed

end
